theory Spec2Isabelle
  imports Complex_Main
begin

section \<open>The product form: image reconciliation (components/ProductForm.tsx)\<close>

text \<open>
  The form keeps three lists in React state: \<open>newImageFiles\<close> (files chosen but not yet
  uploaded, each with an object URL for its preview), \<open>existingImages\<close> (URLs already stored
  for the product) and \<open>imagesToDelete\<close> (URLs the user removed in this session).
  \<open>handleSubmit\<close> deletes, uploads, writes the record and cleans up.

  The two stores (Supabase storage and the \<open>products\<close> table), \<open>uuidv4\<close>,
  \<open>URL.createObjectURL\<close>, the router and the console are outside the component. Their
  answers are parameters of the model (\<open>env\<close>), and every call the component makes on them
  is recorded, in order, in a list of events.
\<close>

subsection \<open>JavaScript values the component relies on\<close>

datatype js_error =
    StoreError string   \<comment> \<open>the \<open>error\<close> field of a Supabase response\<close>
  | TypeError string    \<comment> \<open>reading a property of \<open>undefined\<close>\<close>

text \<open>\<open>xs[i]\<close>: \<open>undefined\<close> (here \<open>None\<close>) outside \<open>0 \<le> i < xs.length\<close>.\<close>

definition js_index :: "'a list \<Rightarrow> int \<Rightarrow> 'a option" where
  "js_index xs i = (if 0 \<le> i \<and> i < int (length xs) then Some (xs ! nat i) else None)"

text \<open>\<open>xs.filter((_, index) => index !== indexToRemove)\<close>.\<close>

fun filter_index_from :: "int \<Rightarrow> int \<Rightarrow> 'a list \<Rightarrow> 'a list" where
  "filter_index_from index indexToRemove [] = []"
| "filter_index_from index indexToRemove (x # xs) =
     (if index \<noteq> indexToRemove then x # filter_index_from (index + 1) indexToRemove xs
      else filter_index_from (index + 1) indexToRemove xs)"

definition filter_index :: "int \<Rightarrow> 'a list \<Rightarrow> 'a list" where
  "filter_index indexToRemove xs = filter_index_from 0 indexToRemove xs"

text \<open>\<open>s.split(c)\<close> for a one-character separator: never the empty array.\<close>

fun js_split :: "char \<Rightarrow> string \<Rightarrow> string list" where
  "js_split c [] = [[]]"
| "js_split c (x # xs) =
     (if x = c then [] # js_split c xs
      else (case js_split c xs of [] \<Rightarrow> [[x]] | w # ws \<Rightarrow> (x # w) # ws))"

text \<open>\<open>xs.pop()\<close>, as a value: the last element, \<open>undefined\<close> on the empty array.\<close>

definition pop :: "'a list \<Rightarrow> 'a option" where
  "pop xs = (if xs = [] then None else Some (last xs))"

text \<open>A value of type \<open>string | undefined\<close> inside a template literal.\<close>

definition template :: "string option \<Rightarrow> string" where
  "template v = (case v of None \<Rightarrow> ''undefined'' | Some s \<Rightarrow> s)"

text \<open>\<open>if (fileName)\<close>: \<open>undefined\<close> and the empty string are falsy.\<close>

definition truthy_str :: "string option \<Rightarrow> bool" where
  "truthy_str v = (case v of None \<Rightarrow> False | Some s \<Rightarrow> s \<noteq> [])"

subsection \<open>Data (types/product.ts and the form's state)\<close>

record product_data =
  name :: string
  description :: string
  price :: real
  images :: "string list"

text \<open>\<open>Product\<close>: the fields above with the optional \<open>id\<close> and \<open>created_at\<close>.\<close>

record product = product_data +
  product_id :: "int option"
  created_at :: "string option"

record js_file =
  file_name :: string
  blob :: nat

record new_image =
  "file" :: js_file
  preview :: string

text \<open>
  \<open>imagesToDelete\<close> is declared \<open>string[]\<close>, but \<open>removeExistingImage\<close> appends
  \<open>existingImages[indexToRemove]\<close> unchecked, which is \<open>undefined\<close> for an index out of
  range; so its elements are \<open>string option\<close> here.
\<close>

record form_state =
  form_name :: string
  form_description :: string
  form_price :: real
  newImageFiles :: "new_image list"
  existingImages :: "string list"
  imagesToDelete :: "string option list"
  isLoading :: bool
  selectedImageUrl :: "string option"

record env =
  uuidv4 :: "nat \<Rightarrow> string"   \<comment> \<open>the result of the k-th call during one submission\<close>
  storage_upload :: "string \<Rightarrow> js_file \<Rightarrow> js_error option"
  storage_getPublicUrl :: "string \<Rightarrow> string"
  storage_remove :: "string list \<Rightarrow> js_error option"
  db_update :: "int \<Rightarrow> product_data \<Rightarrow> js_error option"
  db_insert :: "product_data \<Rightarrow> js_error option"

datatype event =
    StorageRemove "string list"
  | StorageUpload string js_file
  | RecordUpdate int product_data
  | RecordInsert product_data
  | RevokeObjectURL string
  | RouterPush string
  | ConsoleError string js_error
  | ConsoleLog string js_error

subsection \<open>Mounting the form and the local edits\<close>

text \<open>The \<open>useState\<close> initialisers: \<open>initialProduct?.name || ''\<close> and so on.\<close>

definition init_form :: "product option \<Rightarrow> form_state" where
  "init_form initialProduct =
     \<lparr> form_name = (case initialProduct of None \<Rightarrow> '''' | Some p \<Rightarrow> name p),
       form_description = (case initialProduct of None \<Rightarrow> '''' | Some p \<Rightarrow> description p),
       form_price = (case initialProduct of None \<Rightarrow> 0 | Some p \<Rightarrow> price p),
       newImageFiles = [],
       existingImages = (case initialProduct of None \<Rightarrow> [] | Some p \<Rightarrow> images p),
       imagesToDelete = [],
       isLoading = False,
       selectedImageUrl = None \<rparr>"

text \<open>
  \<open>onDrop\<close>: one preview per accepted file, appended. \<open>createObjectURL k f\<close> is what the
  k-th call of \<open>URL.createObjectURL\<close> returns.
\<close>

definition onDrop :: "(nat \<Rightarrow> js_file \<Rightarrow> string) \<Rightarrow> js_file list \<Rightarrow> form_state \<Rightarrow> form_state" where
  "onDrop createObjectURL acceptedFiles s =
     (let newImagePreviews =
            map (\<lambda>(k, f). \<lparr> file = f, preview = createObjectURL k f \<rparr>)
                (zip [0 ..< length acceptedFiles] acceptedFiles)
      in s\<lparr> newImageFiles := newImageFiles s @ newImagePreviews \<rparr>)"

text \<open>
  \<open>removeNewImage\<close>: \<open>newImageFiles[indexToRemove].preview\<close> throws a TypeError when the
  entry is \<open>undefined\<close>, before any state is set.
\<close>

definition removeNewImage :: "int \<Rightarrow> form_state \<Rightarrow> js_error + (event list \<times> form_state)" where
  "removeNewImage indexToRemove s =
     (case js_index (newImageFiles s) indexToRemove of
        None \<Rightarrow> Inl (TypeError ''preview'')
      | Some entry \<Rightarrow>
          Inr ([RevokeObjectURL (preview entry)],
               s\<lparr> newImageFiles := filter_index indexToRemove (newImageFiles s) \<rparr>))"

definition removeExistingImage :: "int \<Rightarrow> form_state \<Rightarrow> form_state" where
  "removeExistingImage indexToRemove s =
     (let imageToRemove = js_index (existingImages s) indexToRemove
      in s\<lparr> imagesToDelete := imagesToDelete s @ [imageToRemove],
            existingImages := filter_index indexToRemove (existingImages s) \<rparr>)"

subsection \<open>Submission\<close>

text \<open>
  One callback of \<open>deleteOldImages\<close>, for one element of \<open>imagesToDelete\<close>: the request
  it issues, what it logs once the request has settled, and what it throws
  (\<open>imageUrl.split\<close> on \<open>undefined\<close> is a TypeError).
\<close>

definition delete_callback :: "env \<Rightarrow> string option \<Rightarrow> event list \<times> event list \<times> js_error option" where
  "delete_callback e imageUrl =
     (case imageUrl of
        None \<Rightarrow> ([], [], Some (TypeError ''split''))
      | Some u \<Rightarrow>
          (let fileName = pop (js_split CHR ''/'' u)
           in if truthy_str fileName then
                (let path = ''products/'' @ template fileName;
                     error = storage_remove e [path]
                 in ([StorageRemove [path]],
                     (case error of Some err \<Rightarrow> [ConsoleError ''Delete error:'' err] | None \<Rightarrow> []),
                     None))
              else ([], [], None)))"

text \<open>
  \<open>deleteOldImages\<close>: \<open>map\<close> starts every callback, so every request is issued, in list
  order; \<open>Promise.all\<close> rejects with the first rejection. The log lines are listed in list
  order (the program prints them as the requests settle).
\<close>

definition deleteOldImages :: "env \<Rightarrow> string option list \<Rightarrow> event list \<times> js_error option" where
  "deleteOldImages e urls =
     (let deletePromises = map (delete_callback e) urls
      in (concat (map fst deletePromises) @ concat (map (\<lambda>r. fst (snd r)) deletePromises),
          (case List.map_filter (\<lambda>r. snd (snd r)) deletePromises of
             [] \<Rightarrow> None
           | err # _ \<Rightarrow> Some err)))"

text \<open>
  The path of the k-th upload of a submission: \<open>fileExt\<close>, \<open>fileName\<close> and \<open>filePath\<close>
  of the callback of \<open>uploadImages\<close>.
\<close>

definition upload_path :: "env \<Rightarrow> nat \<Rightarrow> new_image \<Rightarrow> string" where
  "upload_path e k entry =
     (let fileExt = pop (js_split CHR ''.'' (file_name (file entry)));
          fileName = uuidv4 e k @ ''.'' @ template fileExt
      in ''products/'' @ fileName)"

text \<open>
  One callback of \<open>uploadImages\<close>, the k-th: the request it issues, what it logs, and the
  public URL or \<open>null\<close> it returns.
\<close>

definition upload_callback :: "env \<Rightarrow> nat \<times> new_image \<Rightarrow> event list \<times> event list \<times> string option" where
  "upload_callback e = (\<lambda>(k, entry).
     (let filePath = upload_path e k entry;
          error = storage_upload e filePath (file entry)
      in case error of
           Some err \<Rightarrow> ([StorageUpload filePath (file entry)], [ConsoleError ''Upload error:'' err], None)
         | None \<Rightarrow> ([StorageUpload filePath (file entry)], [], Some (storage_getPublicUrl e filePath))))"

text \<open>
  \<open>uploadImages\<close>: all uploads are started, \<open>Promise.all\<close> keeps the results in list
  order, and the \<open>null\<close>s are filtered out.
\<close>

definition uploadImages :: "env \<Rightarrow> new_image list \<Rightarrow> event list \<times> string list" where
  "uploadImages e files =
     (let uploadPromises = map (upload_callback e) (zip [0 ..< length files] files);
          uploadedUrls = map the (filter (\<lambda>url. url \<noteq> None) (map (\<lambda>r. snd (snd r)) uploadPromises))
      in (concat (map fst uploadPromises) @ concat (map (\<lambda>r. fst (snd r)) uploadPromises),
          uploadedUrls))"

text \<open>\<open>if (initialProduct?.id)\<close>: \<open>undefined\<close> and \<open>0\<close> are falsy.\<close>

definition truthy_id :: "product option \<Rightarrow> int option" where
  "truthy_id initialProduct =
     (case initialProduct of
        None \<Rightarrow> None
      | Some p \<Rightarrow> (case product_id p of None \<Rightarrow> None | Some i \<Rightarrow> if i = 0 then None else Some i))"

text \<open>The record write of \<open>handleSubmit\<close>, with what follows it inside the \<open>try\<close> block.\<close>

definition write_record :: "env \<Rightarrow> product option \<Rightarrow> product_data \<Rightarrow> event list \<times> js_error option" where
  "write_record e initialProduct productData =
     (case truthy_id initialProduct of
        Some i \<Rightarrow>
          (case db_update e i productData of
             Some err \<Rightarrow> ([RecordUpdate i productData, ConsoleLog ''Error updating product:'' err], Some err)
           | None \<Rightarrow> ([RecordUpdate i productData, RouterPush ''/''], None))
      | None \<Rightarrow>
          (case db_insert e productData of
             Some err \<Rightarrow> ([RecordInsert productData], Some err)
           | None \<Rightarrow> ([RecordInsert productData, RouterPush ''/''], None)))"

text \<open>The \<open>try\<close> block: its events and the exception it ends with, if any.\<close>

definition submit_try :: "env \<Rightarrow> product option \<Rightarrow> form_state \<Rightarrow> event list \<times> js_error option" where
  "submit_try e initialProduct s =
     (case deleteOldImages e (imagesToDelete s) of
        (deleted, Some err) \<Rightarrow> (deleted, Some err)
      | (deleted, None) \<Rightarrow>
          (let (uploaded, newUploadedUrls) = uploadImages e (newImageFiles s);
               finalImages = existingImages s @ newUploadedUrls;
               productData = \<lparr> name = form_name s, description = form_description s,
                               price = form_price s, images = finalImages \<rparr>;
               (written, thrown) = write_record e initialProduct productData
           in (deleted @ uploaded @ written, thrown)))"

record submit_result =
  trace :: "event list"
  final :: form_state
  rejected :: "js_error option"   \<comment> \<open>the rejection of the promise \<open>handleSubmit\<close> returns\<close>

text \<open>
  The \<open>catch\<close> block: it logs the exception and throws nothing itself, so the second
  component (what the block throws) is \<open>None\<close>.
\<close>

definition catch_block :: "js_error \<Rightarrow> event list \<times> js_error option" where
  "catch_block err = ([ConsoleError ''Error saving product:'' err], None)"

text \<open>
  A drop on the dropzone: the arguments of one call of \<open>onDrop\<close>.
\<close>

type_synonym drop = "(nat \<Rightarrow> js_file \<Rightarrow> string) \<times> js_file list"

text \<open>
  \<open>handleSubmit\<close> is asynchronous. It reads \<open>newImageFiles\<close>, \<open>existingImages\<close>,
  \<open>imagesToDelete\<close> and the text fields from the render it was created in, the state \<open>s\<close>
  at the click; its \<open>set...\<close> calls act on the live state. While one of its store requests
  is pending the page handles other events. The submit button and the two kinds of remove
  buttons are disabled while \<open>isLoading\<close>, and so is the \<open>input\<close> element of the dropzone;
  the dropzone itself (\<open>useDropzone\<close> is given no \<open>disabled\<close>) still accepts dropped files,
  and \<open>onDrop\<close> appends them to the live \<open>newImageFiles\<close>. \<open>drops\<close> lists those calls of
  \<open>onDrop\<close>, in order.

  \<open>in_flight\<close> is the live state when the \<open>finally\<close> block starts. A delete phase that
  throws (an \<open>undefined\<close> entry) rejects before any request settles, so \<open>catch\<close> and
  \<open>finally\<close> follow the click with no event in between; otherwise the record write is
  awaited and the drops take place.
\<close>

definition in_flight :: "drop list \<Rightarrow> env \<Rightarrow> form_state \<Rightarrow> form_state" where
  "in_flight drops e s =
     (case snd (deleteOldImages e (imagesToDelete s)) of
        Some err \<Rightarrow> s\<lparr> isLoading := True \<rparr>
      | None \<Rightarrow>
          foldl (\<lambda>live (createObjectURL, acceptedFiles). onDrop createObjectURL acceptedFiles live)
                (s\<lparr> isLoading := True \<rparr>) drops)"

text \<open>
  \<open>handleSubmit\<close>: \<open>try\<close>, then \<open>catch\<close> if the \<open>try\<close> block threw, then the
  \<open>finally\<close> block, which revokes the previews of the \<open>newImageFiles\<close> of its own render
  (\<open>s\<close>) and resets the two lists of the live state. The promise is rejected only with what
  the \<open>catch\<close> block throws.
\<close>

definition handleSubmit :: "drop list \<Rightarrow> env \<Rightarrow> product option \<Rightarrow> form_state \<Rightarrow> submit_result" where
  "handleSubmit drops e initialProduct s =
     (let (tried, thrown) = submit_try e initialProduct (s\<lparr> isLoading := True \<rparr>);
          (caught, rethrown) = (case thrown of Some err \<Rightarrow> catch_block err | None \<Rightarrow> ([], None));
          cleanup = map (\<lambda>image. RevokeObjectURL (preview image)) (newImageFiles s);
          live = in_flight drops e s
      in \<lparr> trace = tried @ caught @ cleanup,
           final = live\<lparr> isLoading := False, newImageFiles := [], imagesToDelete := [] \<rparr>,
           rejected = rethrown \<rparr>)"

subsection \<open>A session: any sequence of the four operations\<close>

datatype action =
    OnDrop "nat \<Rightarrow> js_file \<Rightarrow> string" "js_file list"
  | RemoveNewImage int
  | RemoveExistingImage int
  | HandleSubmit env "drop list"

text \<open>An exception in a click handler leaves the state as it was.\<close>

fun step :: "product option \<Rightarrow> form_state \<Rightarrow> action \<Rightarrow> form_state" where
  "step initialProduct s (OnDrop createObjectURL acceptedFiles) = onDrop createObjectURL acceptedFiles s"
| "step initialProduct s (RemoveNewImage i) =
     (case removeNewImage i s of Inl err \<Rightarrow> s | Inr (evs, s') \<Rightarrow> s')"
| "step initialProduct s (RemoveExistingImage i) = removeExistingImage i s"
| "step initialProduct s (HandleSubmit e drops) = final (handleSubmit drops e initialProduct s)"

definition run :: "product option \<Rightarrow> action list \<Rightarrow> form_state" where
  "run initialProduct acts = foldl (step initialProduct) (init_form initialProduct) acts"

subsection \<open>Reading a trace\<close>

fun revoked :: "event list \<Rightarrow> string list" where
  "revoked [] = []"
| "revoked (RevokeObjectURL p # evs) = p # revoked evs"
| "revoked (_ # evs) = revoked evs"

fun written_images :: "event list \<Rightarrow> string list list" where
  "written_images [] = []"
| "written_images (RecordUpdate i d # evs) = images d # written_images evs"
| "written_images (RecordInsert d # evs) = images d # written_images evs"
| "written_images (_ # evs) = written_images evs"

fun removes :: "event list \<Rightarrow> string list list" where
  "removes [] = []"
| "removes (StorageRemove ps # evs) = ps # removes evs"
| "removes (_ # evs) = removes evs"

fun uploads :: "event list \<Rightarrow> (string \<times> js_file) list" where
  "uploads [] = []"
| "uploads (StorageUpload p f # evs) = (p, f) # uploads evs"
| "uploads (_ # evs) = uploads evs"

subsection \<open>The components of the two callbacks, one by one\<close>

definition delete_request :: "string option \<Rightarrow> event list" where
  "delete_request imageUrl =
     (case imageUrl of
        None \<Rightarrow> []
      | Some u \<Rightarrow>
          (let fileName = pop (js_split CHR ''/'' u)
           in if truthy_str fileName then [StorageRemove [''products/'' @ template fileName]]
              else []))"

definition delete_log :: "env \<Rightarrow> string option \<Rightarrow> event list" where
  "delete_log e imageUrl =
     (case imageUrl of
        None \<Rightarrow> []
      | Some u \<Rightarrow>
          (let fileName = pop (js_split CHR ''/'' u)
           in if truthy_str fileName then
                (case storage_remove e [''products/'' @ template fileName] of
                   Some err \<Rightarrow> [ConsoleError ''Delete error:'' err]
                 | None \<Rightarrow> [])
              else []))"

definition delete_thrown :: "string option \<Rightarrow> js_error option" where
  "delete_thrown imageUrl = (case imageUrl of None \<Rightarrow> Some (TypeError ''split'') | Some u \<Rightarrow> None)"

definition upload_request :: "env \<Rightarrow> nat \<times> new_image \<Rightarrow> event" where
  "upload_request e = (\<lambda>(k, entry). StorageUpload (upload_path e k entry) (file entry))"

definition upload_log :: "env \<Rightarrow> nat \<times> new_image \<Rightarrow> event list" where
  "upload_log e = (\<lambda>(k, entry).
     (case storage_upload e (upload_path e k entry) (file entry) of
        Some err \<Rightarrow> [ConsoleError ''Upload error:'' err]
      | None \<Rightarrow> []))"

definition upload_result :: "env \<Rightarrow> nat \<times> new_image \<Rightarrow> string option" where
  "upload_result e = (\<lambda>(k, entry).
     (case storage_upload e (upload_path e k entry) (file entry) of
        Some err \<Rightarrow> None
      | None \<Rightarrow> Some (storage_getPublicUrl e (upload_path e k entry))))"

subsection \<open>The specification's words, for comparison with the code\<close>

text \<open>The last path segment of a URL: what follows its last \<open>/\<close>.\<close>

definition last_segment :: "string \<Rightarrow> string" where
  "last_segment u = rev (takeWhile (\<lambda>c. c \<noteq> CHR ''/'') (rev u))"

text \<open>The URLs of the uploads that succeeded, in the order of the pending files.\<close>

definition successful_urls :: "env \<Rightarrow> new_image list \<Rightarrow> string list" where
  "successful_urls e files =
     [storage_getPublicUrl e (upload_path e k entry).
        (k, entry) \<leftarrow> zip [0 ..< length files] files,
        storage_upload e (upload_path e k entry) (file entry) = None]"

text \<open>The URLs (not \<open>undefined\<close>) of a list of marked images.\<close>

definition marked_urls :: "string option list \<Rightarrow> string list" where
  "marked_urls urls = List.map_filter (\<lambda>u. u) urls"

text \<open>The record \<open>handleSubmit\<close> builds as \<open>productData\<close>, as a function of the state.\<close>

definition submitted_data :: "env \<Rightarrow> form_state \<Rightarrow> product_data" where
  "submitted_data e s =
     \<lparr> name = form_name s, description = form_description s, price = form_price s,
       images = existingImages s @ snd (uploadImages e (newImageFiles s)) \<rparr>"

definition cleanup_events :: "form_state \<Rightarrow> event list" where
  "cleanup_events s = map (\<lambda>image. RevokeObjectURL (preview image)) (newImageFiles s)"

fun is_delete_log :: "event \<Rightarrow> bool" where
  "is_delete_log (ConsoleError label err) = (label = ''Delete error:'')"
| "is_delete_log _ = False"

text \<open>
  The invariant of the two URL lists: \<open>existingImages\<close> has no repeated URL, and none of
  its URLs is marked for deletion.
\<close>

definition disjoint_lists :: "form_state \<Rightarrow> bool" where
  "disjoint_lists s =
     (distinct (existingImages s) \<and> (\<forall>u \<in> set (existingImages s). Some u \<notin> set (imagesToDelete s)))"

subsection \<open>Concrete inputs\<close>

definition photo_a :: new_image where
  "photo_a = \<lparr> file = \<lparr> file_name = ''a.png'', blob = 1 \<rparr>, preview = ''blob:a'' \<rparr>"

definition photo_b :: new_image where
  "photo_b = \<lparr> file = \<lparr> file_name = ''b.jpg'', blob = 2 \<rparr>, preview = ''blob:b'' \<rparr>"

text \<open>Stores in which the upload to \<open>products/u0.png\<close> and the removal of \<open>products/x.png\<close> fail.\<close>

definition demo_env :: env where
  "demo_env =
     \<lparr> uuidv4 = (\<lambda>k. if k = 0 then ''u0'' else ''u1''),
       storage_upload = (\<lambda>p f. if p = ''products/u0.png'' then Some (StoreError ''up'') else None),
       storage_getPublicUrl = (\<lambda>p. ''cdn/'' @ p),
       storage_remove = (\<lambda>ps. if ps = [''products/x.png''] then Some (StoreError ''rm'') else None),
       db_update = (\<lambda>i d. None),
       db_insert = (\<lambda>d. None) \<rparr>"

text \<open>The same stores with a \<open>products\<close> table that refuses every write.\<close>

definition failing_db_env :: env where
  "failing_db_env =
     demo_env\<lparr> db_update := (\<lambda>i d. Some (StoreError ''db'')), db_insert := (\<lambda>d. Some (StoreError ''db'')) \<rparr>"

definition demo_product :: product where
  "demo_product =
     \<lparr> name = ''n'', description = ''d'', price = 1,
       images = [''cdn/products/x.png'', ''cdn/products/y.png''],
       product_id = Some 7, created_at = None \<rparr>"

definition zero_id_product :: product where
  "zero_id_product = demo_product\<lparr> product_id := Some 0 \<rparr>"

definition twin_product :: product where
  "twin_product = demo_product\<lparr> images := [''A'', ''A''] \<rparr>"

definition slash_product :: product where
  "slash_product = demo_product\<lparr> images := [''cdn/products/''] \<rparr>"

definition photo_c :: new_image where
  "photo_c = \<lparr> file = \<lparr> file_name = ''c.gif'', blob = 3 \<rparr>, preview = ''blob:c'' \<rparr>"

text \<open>One file dropped on the dropzone, for which \<open>URL.createObjectURL\<close> returns \<open>blob:c\<close>.\<close>

definition drop_c :: drop where
  "drop_c = (\<lambda>k f. ''blob:c'', [file photo_c])"

definition two_photos :: form_state where
  "two_photos = (init_form None)\<lparr> newImageFiles := [photo_a, photo_b] \<rparr>"

section \<open>Properties\<close>

subsection \<open>Array helpers\<close>

lemma filter_index_from_before: "i < k \<Longrightarrow> filter_index_from k i xs = xs"
  by (induction xs arbitrary: k) auto

lemma filter_index_from_beyond: "k + int (length xs) \<le> i \<Longrightarrow> filter_index_from k i xs = xs"
  by (induction xs arbitrary: k) auto

lemma filter_index_from_nat:
  "n < length xs \<Longrightarrow> filter_index_from k (k + int n) xs = take n xs @ drop (Suc n) xs"
proof (induction xs arbitrary: k n)
  case Nil
  then show ?case by simp
next
  case (Cons x xs)
  show ?case
  proof (cases n)
    case 0
    then show ?thesis by (simp add: filter_index_from_before)
  next
    case (Suc m)
    with Cons.prems have "m < length xs" by simp
    from Cons.IH[OF this, of "k + 1"] Suc show ?thesis
      by (simp add: add.assoc)
  qed
qed

lemma filter_index_in_range:
  assumes "0 \<le> i" "i < int (length xs)"
  shows "filter_index i xs = take (nat i) xs @ drop (Suc (nat i)) xs"
proof -
  from assms have "nat i < length xs" by simp
  from filter_index_from_nat[OF this, of 0] assms(1) show ?thesis
    by (simp add: filter_index_def)
qed

lemma filter_index_out_of_range:
  "\<not> (0 \<le> i \<and> i < int (length xs)) \<Longrightarrow> filter_index i xs = xs"
  unfolding filter_index_def
  using filter_index_from_before[of i 0 xs] filter_index_from_beyond[of 0 xs i] by auto

lemma js_split_not_Nil: "js_split c s \<noteq> []"
  by (induction s) (auto split: list.splits)

lemma js_split_no_sep: "c \<notin> set s \<Longrightarrow> js_split c s = [s]"
  by (induction s) auto

lemma js_split_sep: "c \<in> set s \<Longrightarrow> \<exists>w v ws. js_split c s = w # v # ws"
proof (induction s)
  case Nil
  then show ?case by simp
next
  case (Cons x s)
  show ?case
  proof (cases "x = c")
    case True
    then show ?thesis
      using js_split_not_Nil[of c s] by (cases "js_split c s") auto
  next
    case False
    with Cons.prems have "c \<in> set s" by simp
    from Cons.IH[OF this] False show ?thesis by auto
  qed
qed

lemma last_js_split: "last (js_split c s) = rev (takeWhile (\<lambda>x. x \<noteq> c) (rev s))"
proof (induction s)
  case Nil
  then show ?case by simp
next
  case (Cons x s)
  show ?case
  proof (cases "c \<in> set s")
    case False
    show ?thesis
    proof (cases "x = c")
      case True
      with False show ?thesis
        by (simp add: js_split_no_sep takeWhile_append)
    next
      case False
      with \<open>c \<notin> set s\<close> have "c \<notin> set (x # s)" by simp
      then have one: "js_split c (x # s) = [x # s]" by (rule js_split_no_sep)
      from \<open>c \<notin> set (x # s)\<close>
      have "takeWhile (\<lambda>x. x \<noteq> c) (rev (x # s)) = rev (x # s)"
        by (subst takeWhile_eq_all_conv) auto
      then have "rev (takeWhile (\<lambda>x. x \<noteq> c) (rev (x # s))) = x # s"
        by (simp only: rev_rev_ident)
      moreover from one have "last (js_split c (x # s)) = x # s"
        by (simp only: last.simps) simp
      ultimately show ?thesis by (simp only:)
    qed
  next
    case True
    from js_split_sep[OF True] obtain w v ws where sp: "js_split c s = w # v # ws" by blast
    from True have tw: "takeWhile (\<lambda>x. x \<noteq> c) (rev s @ [x]) = takeWhile (\<lambda>x. x \<noteq> c) (rev s)"
      by (auto simp: takeWhile_append)
    from sp Cons.IH tw show ?thesis by simp
  qed
qed

lemma pop_split_slash: "pop (js_split CHR ''/'' u) = Some (last_segment u)"
  by (simp add: pop_def js_split_not_Nil last_js_split last_segment_def)

subsection \<open>Reading the trace of each phase\<close>

lemma revoked_append: "revoked (xs @ ys) = revoked xs @ revoked ys"
  by (induction xs rule: revoked.induct) simp_all

lemma written_images_append: "written_images (xs @ ys) = written_images xs @ written_images ys"
  by (induction xs rule: written_images.induct) simp_all

lemma removes_append: "removes (xs @ ys) = removes xs @ removes ys"
  by (induction xs rule: removes.induct) simp_all

lemma uploads_append: "uploads (xs @ ys) = uploads xs @ uploads ys"
  by (induction xs rule: uploads.induct) simp_all

lemma revoked_concat: "(\<And>x. revoked (f x) = []) \<Longrightarrow> revoked (concat (map f xs)) = []"
  by (induction xs) (simp_all add: revoked_append)

lemma written_images_concat:
  "(\<And>x. written_images (f x) = []) \<Longrightarrow> written_images (concat (map f xs)) = []"
  by (induction xs) (simp_all add: written_images_append)

lemma removes_concat: "removes (concat (map f xs)) = concat (map (\<lambda>x. removes (f x)) xs)"
  by (induction xs) (simp_all add: removes_append)

lemma uploads_concat: "(\<And>x. uploads (f x) = []) \<Longrightarrow> uploads (concat (map f xs)) = []"
  by (induction xs) (simp_all add: uploads_append)

lemma delete_callback_parts:
  "delete_callback e u = (delete_request u, delete_log e u, delete_thrown u)"
  by (cases u) (simp_all add: delete_callback_def delete_request_def delete_log_def
        delete_thrown_def Let_def)

lemma upload_callback_parts:
  "upload_callback e x = ([upload_request e x], upload_log e x, upload_result e x)"
  by (cases x) (simp add: upload_callback_def upload_request_def upload_log_def
        upload_result_def Let_def split: option.splits)

lemma deleteOldImages_parts:
  "deleteOldImages e urls =
     (concat (map delete_request urls) @ concat (map (delete_log e) urls),
      (case List.map_filter delete_thrown urls of [] \<Rightarrow> None | err # _ \<Rightarrow> Some err))"
proof -
  have "List.map_filter (\<lambda>r. snd (snd r)) (map (delete_callback e) urls) =
        List.map_filter delete_thrown urls"
    by (induction urls) (simp_all add: map_filter_simps delete_callback_parts split: option.splits)
  then show ?thesis
    by (simp add: deleteOldImages_def delete_callback_parts comp_def)
qed

lemma uploadImages_parts:
  "uploadImages e files =
     (map (upload_request e) (zip [0 ..< length files] files) @
      concat (map (upload_log e) (zip [0 ..< length files] files)),
      map the (filter (\<lambda>url. url \<noteq> None) (map (upload_result e) (zip [0 ..< length files] files))))"
proof -
  have "concat (map (\<lambda>x. [upload_request e x]) xs) = map (upload_request e) xs" for xs
    by (induction xs) simp_all
  then show ?thesis
    by (simp add: uploadImages_def upload_callback_parts comp_def)
qed

lemma delete_request_reads:
  "revoked (delete_request u) = []" "written_images (delete_request u) = []"
  "uploads (delete_request u) = []"
  by (simp_all add: delete_request_def Let_def split: option.splits)

lemma delete_log_reads:
  "revoked (delete_log e u) = []" "written_images (delete_log e u) = []"
  "uploads (delete_log e u) = []" "removes (delete_log e u) = []"
  by (simp_all add: delete_log_def Let_def split: option.splits)

lemma fst_deleteOldImages:
  "fst (deleteOldImages e urls) = concat (map delete_request urls) @ concat (map (delete_log e) urls)"
  by (simp add: deleteOldImages_parts)

lemma snd_deleteOldImages:
  "snd (deleteOldImages e urls) = (if None \<in> set urls then Some (TypeError ''split'') else None)"
proof -
  have "(case List.map_filter delete_thrown urls of [] \<Rightarrow> None | err # _ \<Rightarrow> Some err)
        = (if None \<in> set urls then Some (TypeError ''split'') else None)"
  proof (induction urls)
    case Nil
    then show ?case by (simp add: map_filter_simps)
  next
    case (Cons u urls)
    then show ?case
      by (cases u) (simp_all add: map_filter_simps delete_thrown_def)
  qed
  then show ?thesis by (simp add: deleteOldImages_parts)
qed

lemma deleteOldImages_reads:
  "revoked (fst (deleteOldImages e urls)) = []"
  "written_images (fst (deleteOldImages e urls)) = []"
  "uploads (fst (deleteOldImages e urls)) = []"
  by (simp_all add: fst_deleteOldImages revoked_append written_images_append uploads_append
        revoked_concat written_images_concat uploads_concat delete_request_reads delete_log_reads)

lemma removes_delete_request:
  "removes (delete_request u) =
     (case u of None \<Rightarrow> []
      | Some url \<Rightarrow> if last_segment url \<noteq> [] then [[''products/'' @ last_segment url]] else [])"
  by (simp add: delete_request_def pop_split_slash truthy_str_def template_def split: option.splits)

lemma removes_deleteOldImages:
  "removes (fst (deleteOldImages e urls)) =
     map (\<lambda>u. [''products/'' @ last_segment u]) (filter (\<lambda>u. last_segment u \<noteq> []) (marked_urls urls))"
proof -
  have "concat (map (\<lambda>u. removes (delete_request u)) urls) =
        map (\<lambda>u. [''products/'' @ last_segment u]) (filter (\<lambda>u. last_segment u \<noteq> []) (marked_urls urls))"
  proof (induction urls)
    case Nil
    then show ?case by (simp add: marked_urls_def map_filter_simps)
  next
    case (Cons u urls)
    then show ?case
      by (cases u) (simp_all add: marked_urls_def map_filter_simps removes_delete_request)
  qed
  moreover have "removes (concat (map (delete_log e) urls)) = []"
    by (simp add: removes_concat delete_log_reads)
  ultimately show ?thesis
    by (simp add: fst_deleteOldImages removes_append removes_concat)
qed

lemma upload_request_reads:
  "revoked (map (upload_request e) xs) = []" "written_images (map (upload_request e) xs) = []"
  "removes (map (upload_request e) xs) = []"
  by (induction xs) (simp_all add: upload_request_def split: prod.splits)

lemma upload_log_reads:
  "revoked (upload_log e x) = []" "written_images (upload_log e x) = []"
  "removes (upload_log e x) = []" "uploads (upload_log e x) = []"
  by (simp_all add: upload_log_def split: prod.splits option.splits)

lemma uploads_upload_request:
  "uploads (map (upload_request e) xs) = map (\<lambda>(k, entry). (upload_path e k entry, file entry)) xs"
  by (induction xs) (simp_all add: upload_request_def split: prod.splits)

lemma fst_uploadImages:
  "fst (uploadImages e files) =
     map (upload_request e) (zip [0 ..< length files] files) @
     concat (map (upload_log e) (zip [0 ..< length files] files))"
  by (simp add: uploadImages_parts)

lemma uploadImages_reads:
  "revoked (fst (uploadImages e files)) = []"
  "written_images (fst (uploadImages e files)) = []"
  "removes (fst (uploadImages e files)) = []"
  by (simp_all add: fst_uploadImages revoked_append written_images_append removes_append
        upload_request_reads upload_log_reads revoked_concat written_images_concat removes_concat)

lemma uploads_uploadImages:
  "uploads (fst (uploadImages e files)) =
     map (\<lambda>(k, entry). (upload_path e k entry, file entry)) (zip [0 ..< length files] files)"
  by (simp add: fst_uploadImages uploads_append uploads_upload_request uploads_concat upload_log_reads)

lemma filter_results:
  "map the (filter (\<lambda>url. url \<noteq> None) (map (upload_result e) xs)) =
     [storage_getPublicUrl e (upload_path e k entry).
        (k, entry) \<leftarrow> xs, storage_upload e (upload_path e k entry) (file entry) = None]"
  by (induction xs) (auto simp: upload_result_def split: option.splits)

lemma snd_uploadImages: "snd (uploadImages e files) = successful_urls e files"
  by (simp only: uploadImages_parts successful_urls_def snd_conv filter_results)

lemma write_record_reads:
  "revoked (fst (write_record e ip d)) = []"
  "written_images (fst (write_record e ip d)) = [images d]"
  "removes (fst (write_record e ip d)) = []"
  "uploads (fst (write_record e ip d)) = []"
  by (simp_all add: write_record_def split: option.splits)

subsection \<open>The shape of a submission's trace\<close>

lemma submit_try_thrown:
  "None \<in> set (imagesToDelete s) \<Longrightarrow>
   submit_try e ip s = (fst (deleteOldImages e (imagesToDelete s)), Some (TypeError ''split''))"
  using snd_deleteOldImages[of e "imagesToDelete s"]
  by (cases "deleteOldImages e (imagesToDelete s)") (simp add: submit_try_def)

lemma submit_try_ok:
  "None \<notin> set (imagesToDelete s) \<Longrightarrow>
   submit_try e ip s =
     (fst (deleteOldImages e (imagesToDelete s)) @ fst (uploadImages e (newImageFiles s)) @
      fst (write_record e ip (submitted_data e s)),
      snd (write_record e ip (submitted_data e s)))"
  using snd_deleteOldImages[of e "imagesToDelete s"]
  by (cases "deleteOldImages e (imagesToDelete s)")
     (simp add: submit_try_def submitted_data_def Let_def split: prod.splits)

lemma submitted_data_isLoading: "submitted_data e (s\<lparr>isLoading := b\<rparr>) = submitted_data e s"
  by (simp add: submitted_data_def)

lemma trace_thrown:
  "None \<in> set (imagesToDelete s) \<Longrightarrow>
   trace (handleSubmit drops e ip s) =
     fst (deleteOldImages e (imagesToDelete s)) @
     [ConsoleError ''Error saving product:'' (TypeError ''split'')] @ cleanup_events s"
  using submit_try_thrown[of "s\<lparr>isLoading := True\<rparr>" e ip]
  by (simp add: handleSubmit_def catch_block_def cleanup_events_def)

lemma trace_ok:
  "None \<notin> set (imagesToDelete s) \<Longrightarrow>
   trace (handleSubmit drops e ip s) =
     fst (deleteOldImages e (imagesToDelete s)) @ fst (uploadImages e (newImageFiles s)) @
     fst (write_record e ip (submitted_data e s)) @
     (case snd (write_record e ip (submitted_data e s)) of
        Some err \<Rightarrow> [ConsoleError ''Error saving product:'' err] | None \<Rightarrow> []) @
     cleanup_events s"
  using submit_try_ok[of "s\<lparr>isLoading := True\<rparr>" e ip]
  by (simp add: handleSubmit_def catch_block_def cleanup_events_def submitted_data_isLoading
        split: option.splits)

lemma revoked_map_Revoke: "revoked (map (\<lambda>image. RevokeObjectURL (preview image)) xs) = map preview xs"
  by (induction xs) simp_all

lemma revoked_cleanup: "revoked (cleanup_events s) = map preview (newImageFiles s)"
  by (simp add: cleanup_events_def revoked_map_Revoke)

lemma map_Revoke_reads:
  "written_images (map (\<lambda>image. RevokeObjectURL (preview image)) xs) = []"
  "removes (map (\<lambda>image. RevokeObjectURL (preview image)) xs) = []"
  "uploads (map (\<lambda>image. RevokeObjectURL (preview image)) xs) = []"
  by (induction xs) simp_all

lemma cleanup_reads:
  "written_images (cleanup_events s) = []" "removes (cleanup_events s) = []"
  "uploads (cleanup_events s) = []"
  by (simp_all add: cleanup_events_def map_Revoke_reads)

lemma caught_reads:
  "revoked (case r of Some err \<Rightarrow> [ConsoleError l err] | None \<Rightarrow> []) = []"
  "written_images (case r of Some err \<Rightarrow> [ConsoleError l err] | None \<Rightarrow> []) = []"
  "removes (case r of Some err \<Rightarrow> [ConsoleError l err] | None \<Rightarrow> []) = []"
  "uploads (case r of Some err \<Rightarrow> [ConsoleError l err] | None \<Rightarrow> []) = []"
  by (cases r; simp)+

lemma drops_only_append:
  "\<exists>added. foldl (\<lambda>live (createObjectURL, acceptedFiles). onDrop createObjectURL acceptedFiles live) live0 ds
           = live0\<lparr> newImageFiles := newImageFiles live0 @ added \<rparr>"
proof (induction ds arbitrary: live0)
  case Nil
  have "live0 = live0\<lparr> newImageFiles := newImageFiles live0 @ [] \<rparr>" by simp
  then show ?case by (simp only: foldl.simps) (rule exI)
next
  case (Cons d ds)
  obtain mk fs where d: "d = (mk, fs)" by (cases d)
  obtain new where step: "onDrop mk fs live0 = live0\<lparr> newImageFiles := newImageFiles live0 @ new \<rparr>"
    by (simp add: onDrop_def Let_def)
  from Cons.IH[of "onDrop mk fs live0"] obtain added where
    "foldl (\<lambda>live (createObjectURL, acceptedFiles). onDrop createObjectURL acceptedFiles live)
       (onDrop mk fs live0) ds
     = (onDrop mk fs live0)\<lparr> newImageFiles := newImageFiles (onDrop mk fs live0) @ added \<rparr>"
    by blast
  with step d have
    "foldl (\<lambda>live (createObjectURL, acceptedFiles). onDrop createObjectURL acceptedFiles live) live0 (d # ds)
     = live0\<lparr> newImageFiles := newImageFiles live0 @ (new @ added) \<rparr>"
    by simp
  then show ?case by (rule exI)
qed

lemma in_flight_reset:
  "(in_flight drops e s)\<lparr> isLoading := False, newImageFiles := [], imagesToDelete := [] \<rparr>
     = s\<lparr> isLoading := False, newImageFiles := [], imagesToDelete := [] \<rparr>"
proof (cases "snd (deleteOldImages e (imagesToDelete s))")
  case None
  from drops_only_append[of "s\<lparr> isLoading := True \<rparr>" drops] obtain added where
    "foldl (\<lambda>live (createObjectURL, acceptedFiles). onDrop createObjectURL acceptedFiles live)
       (s\<lparr> isLoading := True \<rparr>) drops
     = (s\<lparr> isLoading := True \<rparr>)\<lparr> newImageFiles := newImageFiles (s\<lparr> isLoading := True \<rparr>) @ added \<rparr>"
    by blast
  with None show ?thesis by (simp add: in_flight_def)
next
  case (Some err)
  then show ?thesis by (simp add: in_flight_def)
qed

lemma in_flight_no_drop: "newImageFiles (in_flight [] e s) = newImageFiles s"
  by (simp add: in_flight_def split: option.splits)

lemma final_handleSubmit:
  "final (handleSubmit drops e ip s) = s\<lparr> isLoading := False, newImageFiles := [], imagesToDelete := [] \<rparr>"
  by (simp add: handleSubmit_def Let_def in_flight_reset split: prod.splits)

lemma revoked_trace: "revoked (trace (handleSubmit drops e ip s)) = map preview (newImageFiles s)"
proof (cases "None \<in> set (imagesToDelete s)")
  case True
  then show ?thesis
    by (simp add: trace_thrown revoked_append deleteOldImages_reads revoked_cleanup)
next
  case False
  then show ?thesis
    by (simp add: trace_ok revoked_append deleteOldImages_reads uploadImages_reads
          write_record_reads caught_reads revoked_cleanup)
qed

lemma written_images_trace:
  "written_images (trace (handleSubmit drops e ip s)) =
     (if None \<in> set (imagesToDelete s) then []
      else [existingImages s @ successful_urls e (newImageFiles s)])"
proof (cases "None \<in> set (imagesToDelete s)")
  case True
  then show ?thesis
    by (simp add: trace_thrown written_images_append deleteOldImages_reads cleanup_reads)
next
  case False
  then show ?thesis
    by (simp add: trace_ok written_images_append deleteOldImages_reads uploadImages_reads
          write_record_reads caught_reads cleanup_reads submitted_data_def snd_uploadImages)
qed

lemma removes_trace:
  "removes (trace (handleSubmit drops e ip s)) =
     map (\<lambda>u. [''products/'' @ last_segment u])
         (filter (\<lambda>u. last_segment u \<noteq> []) (marked_urls (imagesToDelete s)))"
proof (cases "None \<in> set (imagesToDelete s)")
  case True
  then show ?thesis
    by (simp add: trace_thrown removes_append removes_deleteOldImages cleanup_reads)
next
  case False
  then show ?thesis
    by (simp add: trace_ok removes_append removes_deleteOldImages uploadImages_reads
          write_record_reads caught_reads cleanup_reads)
qed

lemma uploads_trace:
  "None \<notin> set (imagesToDelete s) \<Longrightarrow>
   uploads (trace (handleSubmit drops e ip s)) =
     map (\<lambda>(k, entry). (upload_path e k entry, file entry))
         (zip [0 ..< length (newImageFiles s)] (newImageFiles s))"
  by (simp add: trace_ok uploads_append deleteOldImages_reads uploads_uploadImages
        write_record_reads caught_reads cleanup_reads)

lemma delete_request_events: "ev \<in> set (delete_request u) \<Longrightarrow> \<exists>ps. ev = StorageRemove ps"
  by (cases u) (simp_all add: delete_request_def Let_def)

lemma mem_log:
  "ev \<in> set (case x of Some err \<Rightarrow> [ConsoleError l err] | None \<Rightarrow> []) \<longleftrightarrow>
     (\<exists>err. x = Some err \<and> ev = ConsoleError l err)"
  by (cases x) auto

lemma delete_log_events:
  assumes "ev \<in> set (delete_log e u)"
  shows "\<exists>err. ev = ConsoleError ''Delete error:'' err"
proof (cases u)
  case None
  with assms show ?thesis by (simp add: delete_log_def)
next
  case (Some url)
  show ?thesis
  proof (cases "truthy_str (pop (js_split CHR ''/'' url))")
    case True
    with assms Some
    have "ev \<in> set (case storage_remove e [''products/'' @ template (pop (js_split CHR ''/'' url))] of
                      Some err \<Rightarrow> [ConsoleError ''Delete error:'' err] | None \<Rightarrow> [])"
      unfolding delete_log_def Let_def by (simp only: option.case if_True)
    then show ?thesis unfolding mem_log by blast
  next
    case False
    with assms Some show ?thesis
      unfolding delete_log_def Let_def by (simp only: option.case if_False list.set empty_iff)
  qed
qed

lemma delete_phase_events:
  assumes "ev \<in> set (fst (deleteOldImages e urls))"
  shows "(\<exists>ps. ev = StorageRemove ps) \<or> (\<exists>err. ev = ConsoleError ''Delete error:'' err)"
proof -
  from assms consider u where "ev \<in> set (delete_request u)" | u where "ev \<in> set (delete_log e u)"
    by (auto simp: fst_deleteOldImages)
  then show ?thesis
    by cases (blast dest: delete_request_events delete_log_events)+
qed

lemma upload_log_events:
  assumes "ev \<in> set (upload_log e x)"
  shows "\<exists>err. ev = ConsoleError ''Upload error:'' err"
proof (cases x)
  case (Pair k entry)
  with assms
  have "ev \<in> set (case storage_upload e (upload_path e k entry) (file entry) of
                    Some err \<Rightarrow> [ConsoleError ''Upload error:'' err] | None \<Rightarrow> [])"
    unfolding upload_log_def by (simp only: prod.case)
  then show ?thesis unfolding mem_log by blast
qed

lemma upload_phase_events:
  assumes "ev \<in> set (fst (uploadImages e files))"
  shows "(\<exists>p f. ev = StorageUpload p f) \<or> (\<exists>err. ev = ConsoleError ''Upload error:'' err)"
proof -
  from assms consider x where "ev = upload_request e x" | x where "ev \<in> set (upload_log e x)"
    by (auto simp: fst_uploadImages)
  then show ?thesis
  proof cases
    case 1
    then show ?thesis by (cases x) (simp add: upload_request_def)
  next
    case 2
    then show ?thesis by (blast dest: upload_log_events)
  qed
qed

lemma cleanup_phase_events: "ev \<in> set (cleanup_events s) \<Longrightarrow> \<exists>p. ev = RevokeObjectURL p"
  by (auto simp: cleanup_events_def)


lemma write_record_answered:
  assumes "\<forall>d. RecordInsert d \<in> set (fst (write_record e ip pd)) \<longrightarrow> db_insert e d = None"
    and "\<forall>i d. RecordUpdate i d \<in> set (fst (write_record e ip pd)) \<longrightarrow> db_update e i d = None"
  shows "snd (write_record e ip pd) = None \<and> RouterPush ''/'' \<in> set (fst (write_record e ip pd))"
  using assms by (auto simp: write_record_def split: option.splits)

lemma rejected_handleSubmit: "rejected (handleSubmit drops e ip s) = None"
  by (simp add: handleSubmit_def catch_block_def Let_def split: prod.splits option.splits)


lemma write_in_trace_is_write_record:
  assumes "None \<notin> set (imagesToDelete s)"
  shows "RecordUpdate i d \<in> set (trace (handleSubmit drops e ip s)) \<longleftrightarrow>
           RecordUpdate i d \<in> set (fst (write_record e ip (submitted_data e s)))"
    and "RecordInsert d \<in> set (trace (handleSubmit drops e ip s)) \<longleftrightarrow>
           RecordInsert d \<in> set (fst (write_record e ip (submitted_data e s)))"
    and "RouterPush p \<in> set (trace (handleSubmit drops e ip s)) \<longleftrightarrow>
           RouterPush p \<in> set (fst (write_record e ip (submitted_data e s)))"
  using trace_ok[where drops = drops and e = e and ip = ip, OF assms]
  by (auto dest: delete_phase_events upload_phase_events cleanup_phase_events split: option.splits)

lemma successful_urls_Nil: "successful_urls e [] = []"
  by (simp add: successful_urls_def)

lemma successful_urls_two:
  "successful_urls e [a, b] =
     (if storage_upload e (upload_path e 0 a) (file a) = None
      then [storage_getPublicUrl e (upload_path e 0 a)] else []) @
     (if storage_upload e (upload_path e 1 b) (file b) = None
      then [storage_getPublicUrl e (upload_path e 1 b)] else [])"
  by (simp add: successful_urls_def upt_rec[of 0] upt_rec[of 1] upt_rec[of "Suc (Suc 0)"] upt_rec[of "Suc 0"])

lemma upload_failure_logged:
  assumes "None \<notin> set (imagesToDelete s)" "k < length (newImageFiles s)"
    "storage_upload e (upload_path e k (newImageFiles s ! k)) (file (newImageFiles s ! k)) = Some err"
  shows "ConsoleError ''Upload error:'' err \<in> set (trace (handleSubmit drops e ip s))"
proof -
  let ?files = "newImageFiles s"
  have "(k, ?files ! k) \<in> set (zip [0 ..< length ?files] ?files)"
    using assms(2) by (simp add: set_zip) (rule exI[of _ k], simp)
  moreover have "ConsoleError ''Upload error:'' err \<in> set (upload_log e (k, ?files ! k))"
    using assms(3) by (simp add: upload_log_def)
  ultimately have "ConsoleError ''Upload error:'' err \<in> set (fst (uploadImages e ?files))"
    unfolding fst_uploadImages by (simp only: set_append set_concat set_map) blast
  then show ?thesis by (simp add: trace_ok[OF assms(1)])
qed

lemma answered_writes_navigate:
  assumes ok: "None \<notin> set (imagesToDelete s)"
    and ins: "\<forall>d. RecordInsert d \<in> set (trace (handleSubmit drops e ip s)) \<longrightarrow> db_insert e d = None"
    and upd: "\<forall>i d. RecordUpdate i d \<in> set (trace (handleSubmit drops e ip s)) \<longrightarrow> db_update e i d = None"
  shows "RouterPush ''/'' \<in> set (trace (handleSubmit drops e ip s)) \<and>
         (\<forall>err. ConsoleError ''Error saving product:'' err \<notin> set (trace (handleSubmit drops e ip s)))"
proof -
  from ins upd have "snd (write_record e ip (submitted_data e s)) = None \<and>
      RouterPush ''/'' \<in> set (fst (write_record e ip (submitted_data e s)))"
    by (intro write_record_answered) (simp_all add: write_in_trace_is_write_record[OF ok])
  then have none: "snd (write_record e ip (submitted_data e s)) = None"
    and push: "RouterPush ''/'' \<in> set (fst (write_record e ip (submitted_data e s)))" by simp_all
  from push have "RouterPush ''/'' \<in> set (trace (handleSubmit drops e ip s))"
    by (simp add: write_in_trace_is_write_record[OF ok])
  moreover have "ConsoleError ''Error saving product:'' err \<notin> set (trace (handleSubmit drops e ip s))" for err
  proof
    assume "ConsoleError ''Error saving product:'' err \<in> set (trace (handleSubmit drops e ip s))"
    with none trace_ok[where drops = drops and e = e and ip = ip, OF ok] 
    consider "ConsoleError ''Error saving product:'' err \<in> set (fst (deleteOldImages e (imagesToDelete s)))"
      | "ConsoleError ''Error saving product:'' err \<in> set (fst (uploadImages e (newImageFiles s)))"
      | "ConsoleError ''Error saving product:'' err \<in> set (fst (write_record e ip (submitted_data e s)))"
      | "ConsoleError ''Error saving product:'' err \<in> set (cleanup_events s)"
      by auto
    then show False
    proof cases
      case 1 then show False by (auto dest: delete_phase_events)
    next
      case 2 then show False by (auto dest: upload_phase_events)
    next
      case 3 then show False by (auto simp: write_record_def split: option.splits)
    next
      case 4 then show False by (auto dest: cleanup_phase_events)
    qed
  qed
  ultimately show ?thesis by blast
qed

lemma removeExistingImage_in_range:
  assumes "0 \<le> i" "i < int (length (existingImages s))"
  shows "existingImages (removeExistingImage i s) =
           take (nat i) (existingImages s) @ drop (Suc (nat i)) (existingImages s)"
    and "imagesToDelete (removeExistingImage i s) =
           imagesToDelete s @ [Some (existingImages s ! nat i)]"
  using assms by (simp_all add: removeExistingImage_def js_index_def filter_index_in_range Let_def)

lemma removeExistingImage_out_of_range:
  assumes "\<not> (0 \<le> i \<and> i < int (length (existingImages s)))"
  shows "existingImages (removeExistingImage i s) = existingImages s"
    and "imagesToDelete (removeExistingImage i s) = imagesToDelete s @ [None]"
  using assms by (simp_all add: removeExistingImage_def js_index_def filter_index_out_of_range Let_def)

lemma distinct_remove_nth:
  assumes "distinct xs" "n < length xs"
  shows "distinct (take n xs @ drop (Suc n) xs)" and "xs ! n \<notin> set (take n xs @ drop (Suc n) xs)"
    and "set (take n xs @ drop (Suc n) xs) \<subseteq> set xs"
proof -
  from assms(2) have xs: "xs = take n xs @ xs ! n # drop (Suc n) xs"
    by (rule id_take_nth_drop)
  with assms(1) have d: "distinct (take n xs @ xs ! n # drop (Suc n) xs)" by simp
  from d show "distinct (take n xs @ drop (Suc n) xs)" by simp
  from d show "xs ! n \<notin> set (take n xs @ drop (Suc n) xs)" by auto
  show "set (take n xs @ drop (Suc n) xs) \<subseteq> set xs"
    by (auto dest: in_set_takeD in_set_dropD)
qed

lemma disjoint_lists_removeExistingImage:
  assumes "disjoint_lists s"
  shows "disjoint_lists (removeExistingImage i s)"
proof (cases "0 \<le> i \<and> i < int (length (existingImages s))")
  case True
  then have n: "nat i < length (existingImages s)" by auto
  from True have ex: "existingImages (removeExistingImage i s) =
           take (nat i) (existingImages s) @ drop (Suc (nat i)) (existingImages s)"
    and del: "imagesToDelete (removeExistingImage i s) =
           imagesToDelete s @ [Some (existingImages s ! nat i)]"
    by (simp_all add: removeExistingImage_in_range)
  from assms have d: "distinct (existingImages s)" by (simp add: disjoint_lists_def)
  from distinct_remove_nth[OF d n] assms show ?thesis
    unfolding disjoint_lists_def ex del by auto
next
  case False
  with assms show ?thesis
    by (auto simp: disjoint_lists_def removeExistingImage_out_of_range)
qed

lemma disjoint_lists_step:
  assumes "disjoint_lists s"
  shows "disjoint_lists (step ip s a)"
proof (cases a)
  case (OnDrop mk fs)
  with assms show ?thesis by (simp add: disjoint_lists_def onDrop_def Let_def)
next
  case (RemoveNewImage i)
  with assms show ?thesis
    by (auto simp: disjoint_lists_def removeNewImage_def split: option.splits sum.splits)
next
  case (RemoveExistingImage i)
  with assms show ?thesis by (simp add: disjoint_lists_removeExistingImage)
next
  case (HandleSubmit e drops)
  with assms show ?thesis by (simp add: disjoint_lists_def final_handleSubmit)
qed

lemma disjoint_lists_foldl: "disjoint_lists s \<Longrightarrow> disjoint_lists (foldl (step ip) s acts)"
  by (induction acts arbitrary: s) (simp_all add: disjoint_lists_step)

lemma disjoint_lists_init:
  "distinct (existingImages (init_form ip)) \<Longrightarrow> disjoint_lists (init_form ip)"
  by (simp add: disjoint_lists_def init_form_def)

lemma filter_not_delete_log_log:
  "filter (\<lambda>ev. \<not> is_delete_log ev) (concat (map (delete_log e) urls)) = []"
proof -
  have "\<forall>ev \<in> set (concat (map (delete_log e) urls)). is_delete_log ev"
    by (auto dest: delete_log_events)
  then show ?thesis by (simp add: filter_empty_conv)
qed

lemma upload_path_remove_irrelevant: "upload_path (e\<lparr>storage_remove := r\<rparr>) = upload_path e"
  by (simp add: upload_path_def fun_eq_iff)

lemma upload_parts_remove_irrelevant:
  "upload_request (e\<lparr>storage_remove := r\<rparr>) = upload_request e"
  "upload_log (e\<lparr>storage_remove := r\<rparr>) = upload_log e"
  "upload_result (e\<lparr>storage_remove := r\<rparr>) = upload_result e"
  by (simp_all add: upload_request_def upload_log_def upload_result_def upload_path_remove_irrelevant
        cong: option.case_cong)

lemma uploadImages_remove_irrelevant:
  "uploadImages (e\<lparr>storage_remove := r\<rparr>) files = uploadImages e files"
  by (simp only: uploadImages_parts upload_parts_remove_irrelevant)

lemma write_record_remove_irrelevant:
  "write_record (e\<lparr>storage_remove := r\<rparr>) ip d = write_record e ip d"
  by (simp add: write_record_def cong: option.case_cong)

lemma submitted_data_remove_irrelevant:
  "submitted_data (e\<lparr>storage_remove := r\<rparr>) s = submitted_data e s"
  by (simp only: submitted_data_def uploadImages_remove_irrelevant)

lemmas env_remove_irrelevant =
  uploadImages_remove_irrelevant write_record_remove_irrelevant submitted_data_remove_irrelevant

lemma trace_without_delete_logs:
  "filter (\<lambda>ev. \<not> is_delete_log ev) (trace (handleSubmit drops (e\<lparr>storage_remove := r\<rparr>) ip s)) =
   filter (\<lambda>ev. \<not> is_delete_log ev) (trace (handleSubmit drops e ip s))"
proof (cases "None \<in> set (imagesToDelete s)")
  case True
  then show ?thesis
    by (simp add: trace_thrown fst_deleteOldImages filter_not_delete_log_log)
next
  case False
  then show ?thesis
    by (simp add: trace_ok fst_deleteOldImages filter_not_delete_log_log env_remove_irrelevant)
qed

lemma delete_failure_logged:
  assumes "Some u \<in> set (imagesToDelete s)" "last_segment u \<noteq> []"
    "storage_remove e [''products/'' @ last_segment u] = Some err"
  shows "ConsoleError ''Delete error:'' err \<in> set (trace (handleSubmit drops e ip s))"
proof -
  from assms(2,3) have "ConsoleError ''Delete error:'' err \<in> set (delete_log e (Some u))"
    by (simp add: delete_log_def pop_split_slash truthy_str_def template_def)
  with assms(1) have "ConsoleError ''Delete error:'' err \<in> set (fst (deleteOldImages e (imagesToDelete s)))"
    unfolding fst_deleteOldImages by (simp only: set_append set_concat set_map) blast
  then show ?thesis
    by (cases "None \<in> set (imagesToDelete s)") (simp_all add: trace_thrown trace_ok)
qed

lemmas eval_defs =
  handleSubmit_def submit_try_def deleteOldImages_def uploadImages_def write_record_def
  truthy_id_def catch_block_def delete_callback_def upload_callback_def upload_path_def
  init_form_def removeExistingImage_def removeNewImage_def js_index_def filter_index_def
  pop_def template_def truthy_str_def map_filter_simps Let_def run_def in_flight_def onDrop_def
  demo_env_def failing_db_env_def demo_product_def zero_id_product_def twin_product_def
  slash_product_def two_photos_def photo_a_def photo_b_def

lemma nonzero_id_is_updated:
  assumes "initialProduct = Some p" "product_id p = Some i" "i \<noteq> 0"
  shows "fst (write_record e initialProduct d) =
           RecordUpdate i d # (case db_update e i d of
                                 Some err \<Rightarrow> [ConsoleLog ''Error updating product:'' err]
                               | None \<Rightarrow> [RouterPush ''/''])"
  using assms by (simp add: write_record_def truthy_id_def split: option.splits)

lemma missing_id_is_inserted:
  assumes "initialProduct = None \<or> (\<exists>p. initialProduct = Some p \<and> product_id p = None)"
  shows "fst (write_record e initialProduct d) =
           RecordInsert d # (case db_insert e d of Some err \<Rightarrow> [] | None \<Rightarrow> [RouterPush ''/''])"
  using assms by (auto simp: write_record_def truthy_id_def split: option.splits)

subsection \<open>Previews and drops\<close>

text \<open>
  The previews a submission revokes are those of the list it was created with; with no
  drop in flight that is the whole live list.
\<close>

lemma closure_previews_released:
  "revoked (trace (handleSubmit drops e ip s)) = map preview (newImageFiles s) \<and>
   newImageFiles (final (handleSubmit drops e ip s)) = [] \<and>
   imagesToDelete (final (handleSubmit drops e ip s)) = []"
  by (simp add: revoked_trace final_handleSubmit)

lemma no_drop_releases_every_preview:
  "revoked (trace (handleSubmit [] e ip s)) = map preview (newImageFiles (in_flight [] e s)) \<and>
   newImageFiles (final (handleSubmit [] e ip s)) = [] \<and>
   imagesToDelete (final (handleSubmit [] e ip s)) = []"
  by (simp add: revoked_trace final_handleSubmit in_flight_no_drop)


subsection \<open>Indices in range keep \<open>imagesToDelete\<close> free of \<open>undefined\<close>\<close>

lemma removeExistingImage_no_undefined:
  assumes "None \<notin> set (imagesToDelete s)" "0 \<le> i" "i < int (length (existingImages s))"
  shows "None \<notin> set (imagesToDelete (removeExistingImage i s))"
  using assms by (simp add: removeExistingImage_in_range)

lemma init_form_no_undefined: "None \<notin> set (imagesToDelete (init_form initialProduct))"
  by (simp add: init_form_def)

section \<open>The claims\<close>

text \<open>
  In every statement about \<open>handleSubmit\<close>, \<open>drops\<close> is arbitrary: the statement holds
  whatever files are dropped on the dropzone while the submission is in flight.
\<close>

text \<open>
  Several statements below assume \<open>None \<notin> set (imagesToDelete s)\<close>: the list holds URLs
  only, as its declared type \<open>string[]\<close> says. The form's buttons call
  \<open>removeExistingImage\<close> with the index of a rendered image, and such calls keep the list
  free of \<open>undefined\<close> (the two lemmas above). With an \<open>undefined\<close> entry the delete
  phase throws, and the submission ends in the \<open>catch\<close> block before any upload or write.
\<close>

subsection \<open>C1: a failed record write\<close>




subsection \<open>C2: cleanup on every exit path\<close>

text \<open>
  C2 with a file dropped while the submission is in flight. The form holds two pending
  files and the user submits; while the uploads and the insert are pending a third file is
  dropped on the dropzone, so \<open>newImageFiles\<close> then holds three entries. The \<open>finally\<close>
  block revokes \<open>blob:a\<close> and \<open>blob:b\<close>, the previews of the list \<open>handleSubmit\<close> was
  created with, and \<open>setNewImageFiles([])\<close> discards all three entries: \<open>blob:c\<close> is never
  revoked. (With no drop in flight every preview of the list is revoked, and in every case
  both lists end empty: the two lemmas on previews and drops above.)
\<close>

theorem dropped_in_flight_preview_is_not_released:
  "newImageFiles (in_flight [drop_c] demo_env two_photos) = [photo_a, photo_b, photo_c] \<and>
   revoked (trace (handleSubmit [drop_c] demo_env None two_photos)) = [''blob:a'', ''blob:b''] \<and>
   newImageFiles (final (handleSubmit [drop_c] demo_env None two_photos)) = [] \<and>
   imagesToDelete (final (handleSubmit [drop_c] demo_env None two_photos)) = []"
  by (simp add: eval_defs drop_c_def photo_c_def)

subsection \<open>C3: the image list that is written\<close>

text \<open>
  C3. The image list a submission writes to the \<open>products\<close> table is \<open>existingImages\<close>
  followed by the public URLs of the uploads that succeeded, each group in its own order.
  It is the only write of the submission; a submission whose delete phase throws (an
  \<open>undefined\<close> entry in \<open>imagesToDelete\<close>) writes nothing.
\<close>

theorem finalImages_is_existing_then_uploaded:
  "written_images (trace (handleSubmit drops e initialProduct s)) =
     (if None \<in> set (imagesToDelete s) then []
      else [existingImages s @ successful_urls e (newImageFiles s)])"
  by (rule written_images_trace)

subsection \<open>C4: a failed upload\<close>

text \<open>
  C4. In a submission (with URLs only in \<open>imagesToDelete\<close>), every pending file is
  uploaded exactly once, whether or not other uploads fail; the list written is
  \<open>existingImages\<close> followed by the URLs of the successful uploads only; every failed
  upload is logged as \<open>Upload error:\<close>; and if the record write is answered without error
  the submission navigates to \<open>/\<close> and logs no \<open>Error saving product:\<close>. In particular,
  with two pending files of which exactly one upload fails, the list written is
  \<open>existingImages\<close> followed by the one URL of the upload that succeeded.
\<close>

theorem failed_upload_is_dropped_not_fatal:
  assumes "None \<notin> set (imagesToDelete s)"
  shows "uploads (trace (handleSubmit drops e initialProduct s)) =
           map (\<lambda>(k, entry). (upload_path e k entry, file entry))
               (zip [0 ..< length (newImageFiles s)] (newImageFiles s)) \<and>
         written_images (trace (handleSubmit drops e initialProduct s)) =
           [existingImages s @ successful_urls e (newImageFiles s)] \<and>
         (\<forall>k err. k < length (newImageFiles s) \<and>
             storage_upload e (upload_path e k (newImageFiles s ! k)) (file (newImageFiles s ! k)) = Some err
             \<longrightarrow> ConsoleError ''Upload error:'' err \<in> set (trace (handleSubmit drops e initialProduct s))) \<and>
         ((\<forall>d. RecordInsert d \<in> set (trace (handleSubmit drops e initialProduct s)) \<longrightarrow> db_insert e d = None) \<and>
          (\<forall>i d. RecordUpdate i d \<in> set (trace (handleSubmit drops e initialProduct s)) \<longrightarrow> db_update e i d = None)
          \<longrightarrow> RouterPush ''/'' \<in> set (trace (handleSubmit drops e initialProduct s)) \<and>
              (\<forall>err. ConsoleError ''Error saving product:'' err \<notin> set (trace (handleSubmit drops e initialProduct s)))) \<and>
         (\<forall>a b err. newImageFiles s = [a, b] \<and>
             storage_upload e (upload_path e 0 a) (file a) = Some err \<and>
             storage_upload e (upload_path e 1 b) (file b) = None
             \<longrightarrow> written_images (trace (handleSubmit drops e initialProduct s)) =
                   [existingImages s @ [storage_getPublicUrl e (upload_path e 1 b)]]) \<and>
         (\<forall>a b err. newImageFiles s = [a, b] \<and>
             storage_upload e (upload_path e 0 a) (file a) = None \<and>
             storage_upload e (upload_path e 1 b) (file b) = Some err
             \<longrightarrow> written_images (trace (handleSubmit drops e initialProduct s)) =
                   [existingImages s @ [storage_getPublicUrl e (upload_path e 0 a)]])"
proof (intro conjI)
  show "uploads (trace (handleSubmit drops e initialProduct s)) =
           map (\<lambda>(k, entry). (upload_path e k entry, file entry))
               (zip [0 ..< length (newImageFiles s)] (newImageFiles s))"
    by (rule uploads_trace[OF assms])
  show w: "written_images (trace (handleSubmit drops e initialProduct s)) =
           [existingImages s @ successful_urls e (newImageFiles s)]"
    using assms by (simp add: written_images_trace)
  show "\<forall>k err. k < length (newImageFiles s) \<and>
             storage_upload e (upload_path e k (newImageFiles s ! k)) (file (newImageFiles s ! k)) = Some err
             \<longrightarrow> ConsoleError ''Upload error:'' err \<in> set (trace (handleSubmit drops e initialProduct s))"
    using upload_failure_logged[OF assms] by blast
  show "(\<forall>d. RecordInsert d \<in> set (trace (handleSubmit drops e initialProduct s)) \<longrightarrow> db_insert e d = None) \<and>
          (\<forall>i d. RecordUpdate i d \<in> set (trace (handleSubmit drops e initialProduct s)) \<longrightarrow> db_update e i d = None)
          \<longrightarrow> RouterPush ''/'' \<in> set (trace (handleSubmit drops e initialProduct s)) \<and>
              (\<forall>err. ConsoleError ''Error saving product:'' err \<notin> set (trace (handleSubmit drops e initialProduct s)))"
    using answered_writes_navigate[OF assms] by blast
  show "\<forall>a b err. newImageFiles s = [a, b] \<and>
             storage_upload e (upload_path e 0 a) (file a) = Some err \<and>
             storage_upload e (upload_path e 1 b) (file b) = None
             \<longrightarrow> written_images (trace (handleSubmit drops e initialProduct s)) =
                   [existingImages s @ [storage_getPublicUrl e (upload_path e 1 b)]]"
    by (simp add: w successful_urls_two)
  show "\<forall>a b err. newImageFiles s = [a, b] \<and>
             storage_upload e (upload_path e 0 a) (file a) = None \<and>
             storage_upload e (upload_path e 1 b) (file b) = Some err
             \<longrightarrow> written_images (trace (handleSubmit drops e initialProduct s)) =
                   [existingImages s @ [storage_getPublicUrl e (upload_path e 0 a)]]"
    by (simp add: w successful_urls_two)
qed

text \<open>
  C4 on a new product with two pending files, the first upload failing: both uploads are
  issued, the record holds the second file's URL alone, the failure is logged, and the
  form navigates.
\<close>

theorem failed_upload_is_dropped_not_fatal_witness:
  "uploads (trace (handleSubmit [] demo_env None two_photos)) =
     [(''products/u0.png'', file photo_a), (''products/u1.jpg'', file photo_b)] \<and>
   written_images (trace (handleSubmit [] demo_env None two_photos)) = [[''cdn/products/u1.jpg'']] \<and>
   ConsoleError ''Upload error:'' (StoreError ''up'') \<in> set (trace (handleSubmit [] demo_env None two_photos)) \<and>
   RouterPush ''/'' \<in> set (trace (handleSubmit [] demo_env None two_photos))"
proof -
  have ok: "None \<notin> set (imagesToDelete two_photos)"
    by (simp add: two_photos_def init_form_def)
  note inst = failed_upload_is_dropped_not_fatal[where drops = "[]" and e = demo_env and initialProduct = None, OF ok]
  have files: "newImageFiles two_photos = [photo_a, photo_b]" "existingImages two_photos = []"
    by (simp_all add: two_photos_def init_form_def)
  have p0: "upload_path demo_env 0 photo_a = ''products/u0.png''"
    and p1: "upload_path demo_env 1 photo_b = ''products/u1.jpg''"
    by (simp_all add: eval_defs)
  have r0: "storage_upload demo_env (upload_path demo_env 0 photo_a) (file photo_a) = Some (StoreError ''up'')"
    and r1: "storage_upload demo_env (upload_path demo_env 1 photo_b) (file photo_b) = None"
    unfolding p0 p1 by (simp_all add: demo_env_def)
  from inst have "uploads (trace (handleSubmit [] demo_env None two_photos)) =
      map (\<lambda>(k, entry). (upload_path demo_env k entry, file entry))
               (zip [0 ..< length (newImageFiles two_photos)] (newImageFiles two_photos))"
    by (rule conjunct1)
  then have c1: "uploads (trace (handleSubmit [] demo_env None two_photos)) =
     [(''products/u0.png'', file photo_a), (''products/u1.jpg'', file photo_b)]"
    using p0 p1 by (simp add: files upt_rec[of 0] upt_rec[of 1] upt_rec[of "Suc 0"] upt_rec[of "Suc (Suc 0)"])
  from inst have "\<forall>a b err. newImageFiles two_photos = [a, b] \<and>
             storage_upload demo_env (upload_path demo_env 0 a) (file a) = Some err \<and>
             storage_upload demo_env (upload_path demo_env 1 b) (file b) = None
             \<longrightarrow> written_images (trace (handleSubmit [] demo_env None two_photos)) =
                   [existingImages two_photos @ [storage_getPublicUrl demo_env (upload_path demo_env 1 b)]]"
    by blast
  with files r0 r1 have "written_images (trace (handleSubmit [] demo_env None two_photos)) =
                   [existingImages two_photos @ [storage_getPublicUrl demo_env (upload_path demo_env 1 photo_b)]]"
    by blast
  then have c2: "written_images (trace (handleSubmit [] demo_env None two_photos)) = [[''cdn/products/u1.jpg'']]"
    unfolding p1 by (simp add: files demo_env_def)
  from inst have "\<forall>k err. k < length (newImageFiles two_photos) \<and>
             storage_upload demo_env (upload_path demo_env k (newImageFiles two_photos ! k)) (file (newImageFiles two_photos ! k)) = Some err
             \<longrightarrow> ConsoleError ''Upload error:'' err \<in> set (trace (handleSubmit [] demo_env None two_photos))"
    by blast
  from this[rule_format, of 0 "StoreError ''up''"] r0
  have c3: "ConsoleError ''Upload error:'' (StoreError ''up'') \<in> set (trace (handleSubmit [] demo_env None two_photos))"
    by (simp add: files)
  have "(\<forall>d. RecordInsert d \<in> set (trace (handleSubmit [] demo_env None two_photos)) \<longrightarrow> db_insert demo_env d = None) \<and>
          (\<forall>i d. RecordUpdate i d \<in> set (trace (handleSubmit [] demo_env None two_photos)) \<longrightarrow> db_update demo_env i d = None)"
    by (simp add: demo_env_def)
  with inst have c4: "RouterPush ''/'' \<in> set (trace (handleSubmit [] demo_env None two_photos))"
    by blast
  from c1 c2 c3 c4 show ?thesis by blast
qed

subsection \<open>C5: removing an existing image\<close>

text \<open>
  C5, as stated, fails. For a product whose image list holds the URL \<open>A\<close> twice,
  \<open>removeExistingImage(0)\<close> leaves \<open>A\<close> in \<open>existingImages\<close> and puts it in
  \<open>imagesToDelete\<close>: the URL is in both lists.
\<close>

theorem removeExistingImage_duplicate_counterexample:
  "existingImages (init_form (Some twin_product)) = [''A'', ''A''] \<and>
   existingImages (removeExistingImage 0 (init_form (Some twin_product))) = [''A''] \<and>
   imagesToDelete (removeExistingImage 0 (init_form (Some twin_product))) = [Some ''A'']"
  by (simp add: eval_defs)

text \<open>
  C5, amended. If the image list the form is mounted with has no repeated URL, then after
  any sequence of operations (adding files, removing a pending upload, removing an existing
  image, submitting) \<open>existingImages\<close> has no repeated URL and no URL of it is in
  \<open>imagesToDelete\<close>; and for every index \<open>0 \<le> i < len(existingImages)\<close>, after
  \<open>removeExistingImage(i)\<close> the URL \<open>existingImages[i]\<close> is in \<open>imagesToDelete\<close> exactly
  once and no longer in \<open>existingImages\<close>.
\<close>

theorem removeExistingImage_moves_url_when_distinct:
  assumes "distinct (existingImages (init_form initialProduct))"
    and "s = run initialProduct acts"
  shows "disjoint_lists s \<and>
         (0 \<le> i \<and> i < int (length (existingImages s)) \<longrightarrow>
            count_list (imagesToDelete (removeExistingImage i s)) (Some (existingImages s ! nat i)) = 1 \<and>
            existingImages s ! nat i \<notin> set (existingImages (removeExistingImage i s)) \<and>
            disjoint_lists (removeExistingImage i s))"
proof -
  from assms have inv: "disjoint_lists s"
    by (simp add: run_def disjoint_lists_foldl disjoint_lists_init)
  moreover have "count_list (imagesToDelete (removeExistingImage i s)) (Some (existingImages s ! nat i)) = 1 \<and>
            existingImages s ! nat i \<notin> set (existingImages (removeExistingImage i s))"
    if r: "0 \<le> i" "i < int (length (existingImages s))"
  proof -
    from r have n: "nat i < length (existingImages s)" by simp
    then have "existingImages s ! nat i \<in> set (existingImages s)" by simp
    with inv have "Some (existingImages s ! nat i) \<notin> set (imagesToDelete s)"
      by (simp add: disjoint_lists_def)
    then have "count_list (imagesToDelete s) (Some (existingImages s ! nat i)) = 0"
      by (simp add: count_list_0_iff)
    moreover from inv have "distinct (existingImages s)" by (simp add: disjoint_lists_def)
    ultimately show ?thesis
      using distinct_remove_nth(2)[OF _ n] by (simp add: removeExistingImage_in_range[OF r])
  qed
  ultimately show ?thesis by (simp add: disjoint_lists_removeExistingImage)
qed

text \<open>
  The amended C5 on a product with images \<open>x.png\<close> and \<open>y.png\<close>: after removing index 0,
  the lists are disjoint, and removing index 0 again moves \<open>y.png\<close>.
\<close>

theorem removeExistingImage_moves_url_when_distinct_witness:
  "disjoint_lists (run (Some demo_product) [RemoveExistingImage 0]) \<and>
   existingImages (run (Some demo_product) [RemoveExistingImage 0]) = [''cdn/products/y.png''] \<and>
   count_list (imagesToDelete (removeExistingImage 0 (run (Some demo_product) [RemoveExistingImage 0])))
     (Some ''cdn/products/y.png'') = 1 \<and>
   ''cdn/products/y.png'' \<notin>
     set (existingImages (removeExistingImage 0 (run (Some demo_product) [RemoveExistingImage 0])))"
proof -
  have d: "distinct (existingImages (init_form (Some demo_product)))"
    by (simp add: init_form_def demo_product_def)
  have ex: "existingImages (run (Some demo_product) [RemoveExistingImage 0]) = [''cdn/products/y.png'']"
    by (simp add: eval_defs)
  from removeExistingImage_moves_url_when_distinct[where initialProduct = "Some demo_product"
      and acts = "[RemoveExistingImage 0]" and i = 0, OF d refl] ex
  show ?thesis by simp
qed

subsection \<open>C6: the delete phase\<close>

text \<open>
  C6, as stated, fails. A marked URL that ends in \<open>/\<close> has an empty last segment, and the
  guard \<open>if (fileName)\<close> skips it: the submission issues no delete at all.
\<close>

theorem delete_skipped_counterexample:
  "imagesToDelete (removeExistingImage 0 (init_form (Some slash_product))) = [Some ''cdn/products/''] \<and>
   removes (trace (handleSubmit [] demo_env (Some slash_product)
                     (removeExistingImage 0 (init_form (Some slash_product))))) = []"
  by (simp add: eval_defs)

text \<open>
  C6, amended. The deletes a submission issues are exactly one per URL of
  \<open>imagesToDelete\<close> whose last path segment is not empty, in list order, each at the path
  \<open>products/\<close> followed by that segment; a URL with an empty last segment is skipped. A
  delete answered with an error is logged as \<open>Delete error:\<close>, and the answers of the
  storage to the deletes change nothing else: apart from those log lines the trace, the
  final state and the outcome of the submission are the same for every behaviour of
  \<open>remove\<close>.
\<close>

theorem deletes_issued_for_nonempty_segments:
  "removes (trace (handleSubmit drops e initialProduct s)) =
     map (\<lambda>u. [''products/'' @ last_segment u])
         (filter (\<lambda>u. last_segment u \<noteq> []) (marked_urls (imagesToDelete s))) \<and>
   (\<forall>u err. Some u \<in> set (imagesToDelete s) \<and> last_segment u \<noteq> [] \<and>
       storage_remove e [''products/'' @ last_segment u] = Some err
       \<longrightarrow> ConsoleError ''Delete error:'' err \<in> set (trace (handleSubmit drops e initialProduct s))) \<and>
   (\<forall>r. filter (\<lambda>ev. \<not> is_delete_log ev) (trace (handleSubmit drops (e\<lparr>storage_remove := r\<rparr>) initialProduct s)) =
        filter (\<lambda>ev. \<not> is_delete_log ev) (trace (handleSubmit drops e initialProduct s)) \<and>
        final (handleSubmit drops (e\<lparr>storage_remove := r\<rparr>) initialProduct s) = final (handleSubmit drops e initialProduct s) \<and>
        rejected (handleSubmit drops (e\<lparr>storage_remove := r\<rparr>) initialProduct s) = rejected (handleSubmit drops e initialProduct s))"
proof (intro conjI allI impI)
  show "removes (trace (handleSubmit drops e initialProduct s)) =
     map (\<lambda>u. [''products/'' @ last_segment u])
         (filter (\<lambda>u. last_segment u \<noteq> []) (marked_urls (imagesToDelete s)))"
    by (rule removes_trace)
next
  fix u err
  assume "Some u \<in> set (imagesToDelete s) \<and> last_segment u \<noteq> [] \<and>
       storage_remove e [''products/'' @ last_segment u] = Some err"
  then show "ConsoleError ''Delete error:'' err \<in> set (trace (handleSubmit drops e initialProduct s))"
    using delete_failure_logged by blast
next
  fix r
  show "filter (\<lambda>ev. \<not> is_delete_log ev) (trace (handleSubmit drops (e\<lparr>storage_remove := r\<rparr>) initialProduct s)) =
        filter (\<lambda>ev. \<not> is_delete_log ev) (trace (handleSubmit drops e initialProduct s))"
    by (rule trace_without_delete_logs)
  show "final (handleSubmit drops (e\<lparr>storage_remove := r\<rparr>) initialProduct s) = final (handleSubmit drops e initialProduct s)"
    by (simp add: final_handleSubmit)
  show "rejected (handleSubmit drops (e\<lparr>storage_remove := r\<rparr>) initialProduct s) = rejected (handleSubmit drops e initialProduct s)"
    by (simp add: rejected_handleSubmit)
qed

text \<open>
  The amended C6 on a product whose first image was removed, with a storage that fails to
  delete it: the delete is issued at \<open>products/x.png\<close>, the failure is logged, and the rest
  of the trace is that of a storage whose deletes all succeed.
\<close>

theorem deletes_issued_for_nonempty_segments_witness:
  "removes (trace (handleSubmit [] demo_env (Some demo_product) (run (Some demo_product) [RemoveExistingImage 0])))
     = [[''products/x.png'']] \<and>
   ConsoleError ''Delete error:'' (StoreError ''rm'')
     \<in> set (trace (handleSubmit [] demo_env (Some demo_product) (run (Some demo_product) [RemoveExistingImage 0]))) \<and>
   filter (\<lambda>ev. \<not> is_delete_log ev)
     (trace (handleSubmit [] (demo_env\<lparr> storage_remove := (\<lambda>ps. None) \<rparr>) (Some demo_product)
               (run (Some demo_product) [RemoveExistingImage 0]))) =
   filter (\<lambda>ev. \<not> is_delete_log ev)
     (trace (handleSubmit [] demo_env (Some demo_product) (run (Some demo_product) [RemoveExistingImage 0])))"
proof -
  let ?s = "run (Some demo_product) [RemoveExistingImage 0]"
  note inst = deletes_issued_for_nonempty_segments[where drops = "[]" and e = demo_env and initialProduct = "Some demo_product" and s = ?s]
  have del: "imagesToDelete ?s = [Some ''cdn/products/x.png'']"
    by (simp add: eval_defs)
  have seg: "last_segment ''cdn/products/x.png'' = ''x.png''"
    by (simp add: last_segment_def)
  from inst have "removes (trace (handleSubmit [] demo_env (Some demo_product) ?s)) =
     map (\<lambda>u. [''products/'' @ last_segment u])
         (filter (\<lambda>u. last_segment u \<noteq> []) (marked_urls (imagesToDelete ?s)))"
    by (rule conjunct1)
  then have c1: "removes (trace (handleSubmit [] demo_env (Some demo_product) ?s)) = [[''products/x.png'']]"
    by (simp add: del seg marked_urls_def map_filter_simps)
  from inst have "\<forall>u err. Some u \<in> set (imagesToDelete ?s) \<and> last_segment u \<noteq> [] \<and>
       storage_remove demo_env [''products/'' @ last_segment u] = Some err
       \<longrightarrow> ConsoleError ''Delete error:'' err \<in> set (trace (handleSubmit [] demo_env (Some demo_product) ?s))"
    by blast
  from this[rule_format, of "''cdn/products/x.png''" "StoreError ''rm''"]
  have c2: "ConsoleError ''Delete error:'' (StoreError ''rm'') \<in> set (trace (handleSubmit [] demo_env (Some demo_product) ?s))"
    by (simp add: del seg demo_env_def)
  from inst have c3: "filter (\<lambda>ev. \<not> is_delete_log ev)
       (trace (handleSubmit [] (demo_env\<lparr>storage_remove := (\<lambda>ps. None)\<rparr>) (Some demo_product) ?s)) =
     filter (\<lambda>ev. \<not> is_delete_log ev) (trace (handleSubmit [] demo_env (Some demo_product) ?s))"
    by blast
  from c1 c2 c3 show ?thesis by blast
qed

subsection \<open>C7: update or insert\<close>

text \<open>
  C7 on a product whose id is \<open>0\<close>: the test \<open>if (initialProduct?.id)\<close> takes \<open>0\<close> for
  a missing id, so the submission issues an insert of the fields and no update keyed by
  the id. (For every id other than \<open>0\<close> the update is issued, and for a missing id the
  insert: the two lemmas on \<open>write_record\<close> above.)
\<close>

theorem zero_id_is_inserted_not_updated:
  "product_id zero_id_product = Some 0 \<and>
   trace (handleSubmit [] demo_env (Some zero_id_product) (init_form (Some zero_id_product))) =
     [RecordInsert \<lparr> name = ''n'', description = ''d'', price = 1,
                     images = [''cdn/products/x.png'', ''cdn/products/y.png''] \<rparr>,
      RouterPush ''/'']"
  by (simp add: eval_defs)

subsection \<open>C8: submitting twice\<close>

text \<open>
  C8. Submit twice with no edit in between (with URLs only in \<open>imagesToDelete\<close>),
  whatever the stores answer: the first submission writes \<open>existingImages\<close> followed by its
  fresh uploads, the second writes \<open>existingImages\<close>, which is the first list cut to the
  length of \<open>existingImages\<close>.
\<close>

theorem second_submit_writes_existingImages:
  assumes "None \<notin> set (imagesToDelete s)"
  shows "written_images (trace (handleSubmit second_drops e2 initialProduct (final (handleSubmit first_drops e1 initialProduct s)))) =
           map (take (length (existingImages s))) (written_images (trace (handleSubmit first_drops e1 initialProduct s))) \<and>
         written_images (trace (handleSubmit second_drops e2 initialProduct (final (handleSubmit first_drops e1 initialProduct s)))) =
           [existingImages s] \<and>
         written_images (trace (handleSubmit first_drops e1 initialProduct s)) =
           [existingImages s @ successful_urls e1 (newImageFiles s)]"
  using assms by (simp add: written_images_trace final_handleSubmit successful_urls_Nil)

text \<open>
  C8 on a product with two images and two pending files: the first submission writes three
  URLs, the second the two existing ones.
\<close>

theorem second_submit_writes_existingImages_witness:
  "written_images (trace (handleSubmit [] demo_env (Some demo_product)
       (final (handleSubmit [] demo_env (Some demo_product)
                 ((init_form (Some demo_product))\<lparr> newImageFiles := [photo_a, photo_b] \<rparr>))))) =
     [[''cdn/products/x.png'', ''cdn/products/y.png'']] \<and>
   written_images (trace (handleSubmit [] demo_env (Some demo_product)
                 ((init_form (Some demo_product))\<lparr> newImageFiles := [photo_a, photo_b] \<rparr>))) =
     [[''cdn/products/x.png'', ''cdn/products/y.png'', ''cdn/products/u1.jpg'']]"
proof -
  let ?s = "(init_form (Some demo_product))\<lparr> newImageFiles := [photo_a, photo_b] \<rparr>"
  have ok: "None \<notin> set (imagesToDelete ?s)"
    by (simp add: init_form_def)
  have ex: "existingImages ?s = [''cdn/products/x.png'', ''cdn/products/y.png'']"
    by (simp add: init_form_def demo_product_def)
  have urls: "successful_urls demo_env (newImageFiles ?s) = [''cdn/products/u1.jpg'']"
    by (simp add: successful_urls_two eval_defs)
  from second_submit_writes_existingImages[where first_drops = "[]" and second_drops = "[]" and ?e1.0 = demo_env and ?e2.0 = demo_env
      and initialProduct = "Some demo_product", OF ok] ex urls
  show ?thesis by simp
qed

subsection \<open>C9: \<open>existingImages\<close> is not touched\<close>

text \<open>
  C9. \<open>handleSubmit\<close> never changes \<open>existingImages\<close>: whatever the stores answer and
  whichever way the \<open>try\<close> block ends, the list after the submission is the list before it.
\<close>

theorem handleSubmit_keeps_existingImages:
  "existingImages (final (handleSubmit drops e initialProduct s)) = existingImages s"
  by (simp add: final_handleSubmit)

subsection \<open>C10: removing a pending upload\<close>

text \<open>
  C10. For an index \<open>0 \<le> i < len(newImageFiles)\<close>, \<open>removeNewImage(i)\<close> revokes the
  preview of entry \<open>i\<close> and nothing else, and removes that entry from the list. For any
  other index it throws a TypeError (reading \<open>preview\<close> of \<open>undefined\<close>) and changes
  nothing: it is not a no-op.
\<close>

theorem removeNewImage_in_and_out_of_range:
  "(0 \<le> i \<and> i < int (length (newImageFiles s)) \<longrightarrow>
      removeNewImage i s =
        Inr ([RevokeObjectURL (preview (newImageFiles s ! nat i))],
             s\<lparr> newImageFiles := take (nat i) (newImageFiles s) @ drop (Suc (nat i)) (newImageFiles s) \<rparr>)) \<and>
   (\<not> (0 \<le> i \<and> i < int (length (newImageFiles s))) \<longrightarrow>
      removeNewImage i s = Inl (TypeError ''preview''))"
  by (simp add: removeNewImage_def js_index_def filter_index_in_range)

text \<open>
  C10 on two pending files: index 1 revokes and removes the second entry, indices 2 and -1
  throw.
\<close>

theorem removeNewImage_in_and_out_of_range_witness:
  "removeNewImage 1 two_photos =
     Inr ([RevokeObjectURL ''blob:b''], two_photos\<lparr> newImageFiles := [photo_a] \<rparr>) \<and>
   removeNewImage 2 two_photos = Inl (TypeError ''preview'') \<and>
   removeNewImage (- 1) two_photos = Inl (TypeError ''preview'')"
proof -
  have files: "newImageFiles two_photos = [photo_a, photo_b]"
    by (simp add: two_photos_def)
  from removeNewImage_in_and_out_of_range[of 1 two_photos]
  have "removeNewImage 1 two_photos =
     Inr ([RevokeObjectURL ''blob:b''], two_photos\<lparr> newImageFiles := [photo_a] \<rparr>)"
    by (simp add: files photo_b_def)
  moreover from removeNewImage_in_and_out_of_range[of 2 two_photos]
  have "removeNewImage 2 two_photos = Inl (TypeError ''preview'')"
    by (simp add: files)
  moreover from removeNewImage_in_and_out_of_range[of "- 1" two_photos]
  have "removeNewImage (- 1) two_photos = Inl (TypeError ''preview'')"
    by (simp add: files)
  ultimately show ?thesis by blast
qed

end
